theory Spec2Isabelle
  imports Main
begin

section \<open>Strings and the character tables of the runtime\<close>

text \<open>
  A Python \<open>str\<close> is a sequence of Unicode code points; \<open>len\<close> counts code points.
  The model writes a string as the list of its code points. ASCII literals are written
  through \<open>u\<close>; the Czech letters of the source's literals are given by number.
\<close>

type_synonym ustr = "int list"

definition u :: "string \<Rightarrow> ustr" where
  "u s = map of_char s"

text \<open>
  \<open>str.strip()\<close>, \<open>str.isspace()\<close> and the regular expression class \<open>\s\<close> share one
  table (the interpreter's \<open>Py_UNICODE_ISSPACE\<close>); it is given in full.
\<close>

definition isspace :: "int \<Rightarrow> bool" where
  "isspace c = ((9 \<le> c \<and> c \<le> 13) \<or> (28 \<le> c \<and> c \<le> 32) \<or> c = 133 \<or> c = 160
     \<or> c = 5760 \<or> (8192 \<le> c \<and> c \<le> 8202) \<or> c = 8232 \<or> c = 8233 \<or> c = 8239
     \<or> c = 8287 \<or> c = 12288)"

text \<open>
  The class \<open>\d\<close> and \<open>int()\<close> accept the decimal digits of every script (general
  category Nd). Each script's digits are ten consecutive code points; the list holds the
  code point of every digit zero (Unicode 14.0, the table of CPython 3.11).
\<close>

definition decimal_zeros :: "int list" where
  "decimal_zeros = [48, 1632, 1776, 1984, 2406, 2534, 2662, 2790, 2918, 3046, 3174, 3302,
     3430, 3558, 3664, 3792, 3872, 4160, 4240, 6112, 6160, 6470, 6608, 6784, 6800, 6992,
     7088, 7232, 7248, 42528, 43216, 43264, 43472, 43504, 43600, 44016, 65296, 66720,
     68912, 69734, 69872, 69942, 70096, 70384, 70736, 70864, 71248, 71360, 71472, 71904,
     72016, 72784, 73040, 73120, 92768, 92864, 93008, 120782, 120792, 120802, 120812,
     120822, 123200, 123632, 125264, 130032]"

definition isdecimal :: "int \<Rightarrow> bool" where
  "isdecimal c = list_ex (\<lambda>z. z \<le> c \<and> c < z + 10) decimal_zeros"

definition digit_value :: "int \<Rightarrow> int" where
  "digit_value c = (case find (\<lambda>z. z \<le> c \<and> c < z + 10) decimal_zeros of
       Some z \<Rightarrow> c - z | None \<Rightarrow> 0)"

text \<open>
  \<open>int(num)\<close> on a string of decimal digits. The interpreter's configurable limit on
  the number of digits (4300 by default) is not modelled.
\<close>

definition py_int :: "ustr \<Rightarrow> int" where
  "py_int ds = foldl (\<lambda>a c. 10 * a + digit_value c) 0 ds"

text \<open>
  The casing tables behind \<open>str.isupper()\<close>, \<open>str.isalpha()\<close> and \<open>str.lower()\<close> are
  large and differ between interpreter versions. The three methods are parameters of the
  model: every theorem below holds whatever they compute.
\<close>

record unicode =
  isupper :: "ustr \<Rightarrow> bool"
  isalpha :: "ustr \<Rightarrow> bool"
  lower :: "ustr \<Rightarrow> ustr"

text \<open>
  For evaluating examples: the three methods on Basic Latin and the Czech letters, every
  other code point taken as uncased.
\<close>

definition czech_upper :: "int list" where
  "czech_upper = [193, 268, 270, 201, 282, 205, 327, 211, 344, 352, 356, 218, 366, 221, 381]"

definition czech_lower :: "int list" where
  "czech_lower = [225, 269, 271, 233, 283, 237, 328, 243, 345, 353, 357, 250, 367, 253, 382]"

definition cp_upper :: "int \<Rightarrow> bool" where
  "cp_upper c = ((65 \<le> c \<and> c \<le> 90) \<or> c \<in> set czech_upper)"

definition cp_lower :: "int \<Rightarrow> bool" where
  "cp_lower c = ((97 \<le> c \<and> c \<le> 122) \<or> c \<in> set czech_lower)"

definition cp_tolower :: "int \<Rightarrow> int" where
  "cp_tolower c =
     (if (65 \<le> c \<and> c \<le> 90) \<or> c \<in> set [193, 201, 205, 211, 218, 221] then c + 32
      else if c \<in> set [268, 270, 282, 327, 344, 352, 356, 366, 381] then c + 1
      else c)"

definition basic_czech :: unicode where
  "basic_czech =
     \<lparr> isupper = (\<lambda>s. list_ex cp_upper s \<and> \<not> list_ex cp_lower s),
       isalpha = (\<lambda>s. s \<noteq> [] \<and> list_all (\<lambda>c. cp_upper c \<or> cp_lower c) s),
       lower = map cp_tolower \<rparr>"

subsection \<open>String methods\<close>

definition strip :: "ustr \<Rightarrow> ustr" where
  "strip s = rev (dropWhile isspace (rev (dropWhile isspace s)))"

definition startswith :: "ustr \<Rightarrow> ustr \<Rightarrow> bool" where
  "startswith pat s = (take (length pat) s = pat)"

text \<open>\<open>pat in s\<close>: \<open>pat\<close> occurs in \<open>s\<close> as a contiguous substring.\<close>

fun contains :: "ustr \<Rightarrow> ustr \<Rightarrow> bool" where
  "contains pat [] = (pat = [])"
| "contains pat (c # cs) = (startswith pat (c # cs) \<or> contains pat cs)"

text \<open>\<open>re.sub(r'\s+', ' ', text)\<close>: every maximal run of whitespace becomes one space.\<close>

function sub_ws :: "ustr \<Rightarrow> ustr" where
  "sub_ws [] = []"
| "sub_ws (c # cs) =
     (if isspace c then 32 # sub_ws (dropWhile isspace cs) else c # sub_ws cs)"
  by pat_completeness auto
termination
  by (relation "measure length") (auto intro: le_imp_less_Suc length_dropWhile_le)

definition clean_text :: "ustr \<Rightarrow> ustr" where
  "clean_text text = strip (sub_ws text)"

subsection \<open>The literals of the source\<close>

definition ANSWERS :: ustr where
  "ANSWERS = u ''SPR'' @ [193] @ u ''VN'' @ [201] @ u '' '' @ [344] @ u ''E'' @ [352]
     @ u ''EN'' @ [205]"

definition ANSWERS_COLON :: ustr where
  "ANSWERS_COLON = ANSWERS @ u '':''"

definition TESTOVE_ULOHY :: ustr where
  "TESTOVE_ULOHY = u ''TESTOV'' @ [201] @ u '' '' @ [218] @ u ''LOHY''"

definition OBCANSKY_ZAKLAD :: ustr where
  "OBCANSKY_ZAKLAD = u ''OB'' @ [268] @ u ''ANSK'' @ [221] @ u '' Z'' @ [193] @ u ''KLAD''"

definition POKRACOVANI :: ustr where
  "POKRACOVANI = u ''(Pokra'' @ [269] @ u ''ov'' @ [225] @ u ''n'' @ [237] @ u '')''"

definition DATUM_AKTUALIZACE :: ustr where
  "DATUM_AKTUALIZACE = u ''Datum aktualizace''"

definition DATUM_PREFIX :: ustr where
  "DATUM_PREFIX = u ''Datum aktualizace testov'' @ [233] @ u '' '' @ [250] @ u ''lohy:''"

section \<open>The regular expressions of the parser\<close>

text \<open>
  Each pattern is matched by its own function, with \<open>re.match\<close> anchored at the start
  of the line. A greedy run is taken whole: in every pattern below the character that has
  to follow a run is outside the run's class, so giving characters back never helps.
\<close>

text \<open>\<open>re.match(r'^\d+$', line)\<close>; \<open>$\<close> also matches before a final newline.\<close>

definition re_page_number :: "ustr \<Rightarrow> bool" where
  "re_page_number s =
     (let ds = takeWhile isdecimal s; r = dropWhile isdecimal s
      in ds \<noteq> [] \<and> (r = [] \<or> r = [10]))"

text \<open>The classes \<open>[A-Z...]\<close> (the Czech capitals) and \<open>[A-Z...\s,0-9.]\<close>.\<close>

definition upper_class :: "int \<Rightarrow> bool" where
  "upper_class c = ((65 \<le> c \<and> c \<le> 90) \<or> c \<in> set czech_upper)"

definition title_class :: "int \<Rightarrow> bool" where
  "title_class c = (upper_class c \<or> isspace c \<or> c = 44 \<or> (48 \<le> c \<and> c \<le> 57) \<or> c = 46)"

text \<open>
  \<open>re.match(r'^(\d+)\.\s+([A-Z...][A-Z...\s,0-9.]+)$', line)\<close>, giving groups 1 and 2.
\<close>

definition section_match :: "ustr \<Rightarrow> (ustr \<times> ustr) option" where
  "section_match s =
     (let ds = takeWhile isdecimal s;
          r2 = tl (dropWhile isdecimal s);
          r3 = dropWhile isspace r2
      in if ds \<noteq> [] \<and> startswith [46] (dropWhile isdecimal s) \<and> takeWhile isspace r2 \<noteq> [] \<and>
            r3 \<noteq> [] \<and> upper_class (hd r3) \<and> tl r3 \<noteq> [] \<and> list_all title_class (tl r3)
         then Some (ds, r3) else None)"

text \<open>\<open>(.*)\<close>: the longest run of characters other than the newline.\<close>

definition dot_star :: "ustr \<Rightarrow> ustr" where
  "dot_star s = takeWhile (\<lambda>c. c \<noteq> 10) s"

text \<open>\<open>re.match(r'^(\d+)\.\s*(.*)', line)\<close>, giving groups 1 and 2.\<close>

definition question_match :: "ustr \<Rightarrow> (ustr \<times> ustr) option" where
  "question_match s =
     (let ds = takeWhile isdecimal s in
      if ds = [] then None
      else case dropWhile isdecimal s of
        [] \<Rightarrow> None
      | d # r \<Rightarrow> if d = 46 then Some (ds, dot_star (dropWhile isspace r)) else None)"

definition is_AD :: "int \<Rightarrow> bool" where
  "is_AD c = (65 \<le> c \<and> c \<le> 68)"

text \<open>\<open>re.match(r'^([A-D])\)\s*(.*)', line)\<close>, giving groups 1 and 2.\<close>

definition option_match :: "ustr \<Rightarrow> (ustr \<times> ustr) option" where
  "option_match s =
     (case s of
        l # p # r \<Rightarrow>
          if is_AD l \<and> p = 41 then Some ([l], dot_star (dropWhile isspace r)) else None
      | _ \<Rightarrow> None)"

text \<open>\<open>re.match(r'^[A-D]\)', next_line)\<close>.\<close>

definition re_option_start :: "ustr \<Rightarrow> bool" where
  "re_option_start s = (case s of l # p # r \<Rightarrow> is_AD l \<and> p = 41 | _ \<Rightarrow> False)"

text \<open>
  \<open>re.match(r'^\d+\.\s', next_line)\<close> and \<open>re.match(r'^\d+\.\s+', next_line)\<close>: as
  tests the two succeed on the same lines.
\<close>

definition re_numbered :: "ustr \<Rightarrow> bool" where
  "re_numbered s =
     (takeWhile isdecimal s \<noteq> [] \<and>
      (case dropWhile isdecimal s of d # w # r \<Rightarrow> d = 46 \<and> isspace w | _ \<Rightarrow> False))"

text \<open>
  \<open>re.match(PREFIX + r'\s*(.+)', line)\<close> with the date prefix of the source, giving group 1.
  When only whitespace follows the prefix, \<open>\s*\<close> gives back characters until \<open>.+\<close>
  finds one that is not a newline: the last such character, alone.
\<close>

definition date_match :: "ustr \<Rightarrow> ustr option" where
  "date_match s =
     (if startswith DATUM_PREFIX s then
        (let r = drop (length DATUM_PREFIX) s; t = dropWhile isspace r in
         if t \<noteq> [] then Some (dot_star t)
         else case filter (\<lambda>c. c \<noteq> 10) r of [] \<Rightarrow> None | x # xs \<Rightarrow> Some [last (x # xs)])
      else None)"

text \<open>
  \<open>re.findall(r'(\d+)([A-D])', line)\<close>: the matches from left to right, without overlap;
  where no match starts the search moves on by one character.
\<close>

function findall_answers :: "ustr \<Rightarrow> (ustr \<times> ustr) list" where
  "findall_answers [] = []"
| "findall_answers (c # cs) =
     (let ds = takeWhile isdecimal (c # cs); r = dropWhile isdecimal (c # cs) in
      if ds \<noteq> [] \<and> r \<noteq> [] \<and> is_AD (hd r)
      then (ds, [hd r]) # findall_answers (tl r)
      else findall_answers cs)"
  by pat_completeness auto
termination
proof (relation "measure length")
  fix c :: int and cs ds r :: ustr
  assume "r = dropWhile isdecimal (c # cs)" and "ds \<noteq> [] \<and> r \<noteq> [] \<and> is_AD (hd r)"
  then have "length (tl r) < length r" and "length r \<le> length (c # cs)"
    using length_dropWhile_le [of isdecimal "c # cs"] by simp_all
  then show "(tl r, c # cs) \<in> measure length" by simp
qed simp_all

text \<open>\<open>answers[int(num)] = letter\<close>\<close>

definition set_answer :: "(int \<rightharpoonup> ustr) \<Rightarrow> ustr \<times> ustr \<Rightarrow> (int \<rightharpoonup> ustr)" where
  "set_answer answers m = answers(py_int (fst m) \<mapsto> snd m)"

definition parse_answers_line :: "ustr \<Rightarrow> (int \<rightharpoonup> ustr)" where
  "parse_answers_line line = foldl set_answer Map.empty (findall_answers line)"

section \<open>The data model\<close>

record Option =
  option_label :: ustr
  option_text :: ustr
  option_image :: "ustr option"

record Question =
  question_id :: int
  question_text :: ustr
  question_options :: "Option list"
  question_correct :: ustr
  question_image :: "ustr option"
  question_date :: "ustr option"
  question_page :: int

record Section =
  section_id :: int
  section_name :: ustr
  section_questions :: "Question list"

record QuizData =
  source_file :: ustr
  sections :: "Section list"

section \<open>The line scan of \<open>parse_pdf\<close>\<close>

text \<open>
  The scan starts from \<open>lines_with_pages\<close>, the lines of every page with their page
  number. Its local variables are the state; \<open>quiz_sections\<close> is \<open>quiz_data.sections\<close>.
  The cursor \<open>i\<close> is the list of the lines from \<open>i\<close> on.
\<close>

type_synonym lines = "(ustr \<times> int) list"

record parser_state =
  quiz_sections :: "Section list"
  current_section :: "Section option"
  current_question :: "Question option"
  current_answers :: "int \<rightharpoonup> ustr"

definition initial_state :: parser_state where
  "initial_state =
     \<lparr> quiz_sections = [], current_section = None, current_question = None,
       current_answers = Map.empty \<rparr>"

text \<open>
  \<open>if current_section and current_question and current_question.options:\<close>
  \<open>current_section.questions.append(current_question); current_question = None\<close>
  (instances of the data classes are always true).
\<close>

definition commit_question :: "parser_state \<Rightarrow> parser_state" where
  "commit_question st =
     (case (current_section st, current_question st) of
        (Some s, Some q) \<Rightarrow>
          if question_options q \<noteq> []
          then st\<lparr> current_section := Some (s\<lparr> section_questions := section_questions s @ [q] \<rparr>),
                   current_question := None \<rparr>
          else st
      | _ \<Rightarrow> st)"

text \<open>\<open>for q in questions: if q.id in current_answers: q.correct = current_answers[q.id]\<close>\<close>

definition apply_answers :: "(int \<rightharpoonup> ustr) \<Rightarrow> Question list \<Rightarrow> Question list" where
  "apply_answers answers qs =
     map (\<lambda>q. case answers (question_id q) of Some letter \<Rightarrow> q\<lparr> question_correct := letter \<rparr> | None \<Rightarrow> q) qs"

text \<open>
  \<open>if current_section and current_section.questions:\<close> apply the answers and
  \<open>quiz_data.sections.append(current_section)\<close>.
\<close>

definition commit_section :: "parser_state \<Rightarrow> parser_state" where
  "commit_section st =
     (case current_section st of
        Some s \<Rightarrow>
          if section_questions s \<noteq> []
          then st\<lparr> quiz_sections := quiz_sections st @
                  [s\<lparr> section_questions := apply_answers (current_answers st) (section_questions s) \<rparr>] \<rparr>
          else st
      | None \<Rightarrow> st)"

text \<open>The section header branch, once the line is known to be a header.\<close>

definition start_section :: "parser_state \<Rightarrow> ustr \<Rightarrow> ustr \<Rightarrow> parser_state" where
  "start_section st num title =
     (commit_section (commit_question st))
       \<lparr> current_section := Some \<lparr> section_id = py_int num, section_name = strip title, section_questions = [] \<rparr>,
         current_question := None,
         current_answers := Map.empty \<rparr>"

text \<open>The answer-key branch.\<close>

definition answers_line :: "parser_state \<Rightarrow> ustr \<Rightarrow> parser_state" where
  "answers_line st line = (commit_question st)\<lparr> current_answers := parse_answers_line line \<rparr>"

text \<open>
  The two loops that collect continuation lines. Both stop at the same lines; they
  differ in how the line is joined: the question's loop adds no space to an empty text.
\<close>

definition stops_text :: "ustr \<Rightarrow> bool" where
  "stops_text next_line =
     (re_option_start next_line \<or> startswith DATUM_AKTUALIZACE next_line \<or>
      re_numbered next_line \<or> contains ANSWERS next_line \<or> next_line = [])"

fun collect_question_text :: "ustr \<Rightarrow> lines \<Rightarrow> ustr \<times> lines" where
  "collect_question_text q_text [] = (q_text, [])"
| "collect_question_text q_text ((l, p) # rest) =
     (let next_line = strip l in
      if stops_text next_line then (q_text, (l, p) # rest)
      else collect_question_text
             (q_text @ (if q_text \<noteq> [] then [32] @ next_line else next_line)) rest)"

fun collect_option_text :: "ustr \<Rightarrow> lines \<Rightarrow> ustr \<times> lines" where
  "collect_option_text opt_text [] = (opt_text, [])"
| "collect_option_text opt_text ((l, p) # rest) =
     (let next_line = strip l in
      if stops_text next_line then (opt_text, (l, p) # rest)
      else collect_option_text (opt_text @ [32] @ next_line) rest)"

text \<open>
  The question branch, once the line is accepted as a question start; \<open>sec\<close> is the
  current section, which exists by then.
\<close>

definition start_question ::
  "parser_state \<Rightarrow> Section \<Rightarrow> int \<Rightarrow> ustr \<Rightarrow> int \<Rightarrow> lines \<Rightarrow> parser_state \<times> lines" where
  "start_question st sec q_num q_text page_num rest =
     (let sec' = (case current_question st of
                    Some q \<Rightarrow>
                      if question_options q \<noteq> [] then sec\<lparr> section_questions := section_questions sec @ [q] \<rparr>
                      else sec
                  | None \<Rightarrow> sec);
          (q_text', rest') = collect_question_text q_text rest
      in (st\<lparr> current_section := Some sec',
               current_question := Some \<lparr> question_id = q_num, question_text = clean_text q_text',
                 question_options = [], question_correct = [], question_image = None, question_date = None,
                 question_page = page_num \<rparr> \<rparr>,
          rest'))"

text \<open>The option branch, the date branch and the final \<open>i += 1\<close>.\<close>

definition option_or_date :: "parser_state \<Rightarrow> ustr \<Rightarrow> lines \<Rightarrow> parser_state \<times> lines" where
  "option_or_date st line rest =
     (case (option_match line, current_question st) of
        (Some (label, opt_text), Some q) \<Rightarrow>
          (let (opt_text', rest') = collect_option_text opt_text rest in
           (st\<lparr> current_question := Some (q\<lparr> question_options := question_options q @
                    [\<lparr> option_label = label, option_text = clean_text opt_text', option_image = None \<rparr>] \<rparr>) \<rparr>,
            rest'))
      | _ \<Rightarrow>
          (case (date_match line, current_question st) of
             (Some d, Some q) \<Rightarrow> (st\<lparr> current_question := Some (q\<lparr> question_date := Some (strip d) \<rparr>) \<rparr>, rest)
           | _ \<Rightarrow> (st, rest)))"

text \<open>
  One pass of the \<open>while\<close> body on the line at the cursor, giving the new state and the
  lines from the new cursor on. The branches are tried in the order of the source; a
  line that matches the section pattern or the question pattern without passing the
  branch's second test falls through to the branches below. A line that matches the
  question pattern opens the placeholder section when there is none, accepted or not.
\<close>

definition section_header :: "unicode \<Rightarrow> ustr \<Rightarrow> (ustr \<times> ustr) option" where
  "section_header U line =
     (case section_match line of
        Some (num, title) \<Rightarrow>
          if list_all (\<lambda>c. isupper U [c] \<or> \<not> isalpha U [c]) title then Some (num, title)
          else None
      | None \<Rightarrow> None)"

definition question_branch ::
  "unicode \<Rightarrow> parser_state \<Rightarrow> ustr \<Rightarrow> int \<Rightarrow> lines \<Rightarrow> parser_state \<times> lines" where
  "question_branch U st line page_num rest =
     (case question_match line of
        Some (num, q_text) \<Rightarrow>
          (let sec = (case current_section st of
                        None \<Rightarrow> \<lparr> section_id = 0, section_name = POKRACOVANI, section_questions = [] \<rparr>
                      | Some s \<Rightarrow> s);
               st1 = st\<lparr> current_section := Some sec \<rparr>
           in if \<not> isupper U line \<and> (py_int num \<le> 10 \<or> 63 \<in> set line)
              then start_question st1 sec (py_int num) q_text page_num rest
              else option_or_date st1 line rest)
      | None \<Rightarrow> option_or_date st line rest)"

definition step :: "unicode \<Rightarrow> parser_state \<Rightarrow> ustr \<Rightarrow> int \<Rightarrow> lines \<Rightarrow> parser_state \<times> lines" where
  "step U st raw page_num rest =
     (let line = strip raw in
      if line = [] \<or> re_page_number line then (st, rest)
      else if line = TESTOVE_ULOHY \<or> line = OBCANSKY_ZAKLAD then (st, rest)
      else case section_header U line of
        Some (num, title) \<Rightarrow> (start_section st num title, rest)
      | None \<Rightarrow>
          if contains ANSWERS_COLON line \<or> contains ANSWERS line
          then (answers_line st line, rest)
          else question_branch U st line page_num rest)"

lemma collect_question_text_length:
  "length (snd (collect_question_text t ls)) \<le> length ls"
proof (induction ls arbitrary: t)
  case Nil
  show ?case by simp
next
  case (Cons a ls)
  obtain l p where a: "a = (l, p)" by (cases a)
  show ?case
    using Cons.IH [of "t @ (if t \<noteq> [] then [32] @ strip l else strip l)"]
    by (simp add: a Let_def)
qed

lemma collect_option_text_length:
  "length (snd (collect_option_text t ls)) \<le> length ls"
proof (induction ls arbitrary: t)
  case Nil
  show ?case by simp
next
  case (Cons a ls)
  obtain l p where a: "a = (l, p)" by (cases a)
  show ?case
    using Cons.IH [of "t @ [32] @ strip l"] by (simp add: a Let_def)
qed

lemma start_question_length:
  "length (snd (start_question st sec n t p rest)) \<le> length rest"
  using collect_question_text_length [of t rest]
  by (auto simp: start_question_def Let_def split: prod.splits)

lemma option_or_date_length:
  "length (snd (option_or_date st line rest)) \<le> length rest"
proof (cases "option_match line")
  case None
  then show ?thesis
    by (simp add: option_or_date_def split: option.splits)
next
  case (Some m)
  obtain label t where m: "m = (label, t)" by (cases m)
  show ?thesis
    using collect_option_text_length [of t rest]
    by (auto simp: option_or_date_def Some m split: option.splits prod.splits)
qed

lemma question_branch_length:
  "length (snd (question_branch U st line page_num rest)) \<le> length rest"
  by (simp add: question_branch_def Let_def start_question_length option_or_date_length
      split: option.splits prod.splits)

lemma step_length: "length (snd (step U st raw page_num rest)) \<le> length rest"
  by (simp add: step_def Let_def question_branch_length split: option.splits prod.splits)

text \<open>\<open>while i < len(lines_with_pages)\<close>: the body runs until no line is left.\<close>

function scan :: "unicode \<Rightarrow> parser_state \<Rightarrow> lines \<Rightarrow> parser_state" where
  "scan U st [] = st"
| "scan U st ((raw, page_num) # rest) =
     (case step U st raw page_num rest of (st', rest') \<Rightarrow> scan U st' rest')"
  by pat_completeness auto
termination
proof (relation "measure (\<lambda>(U, st, ls). length ls)")
  fix U :: unicode and st st' :: parser_state and raw :: ustr and page_num :: int
    and rest rest' x :: lines
  assume "(st', rest') = step U st raw page_num rest"
  then have "rest' = snd (step U st raw page_num rest)"
    by (metis snd_conv)
  then show "((U, st', rest'), U, st, (raw, page_num) # rest) \<in> measure (\<lambda>(U, st, ls). length ls)"
    using step_length [of U st raw page_num rest] by simp
qed simp

text \<open>The code after the loop ("Don't forget the last section").\<close>

definition finish :: "parser_state \<Rightarrow> Section list" where
  "finish st =
     (case current_section st of
        Some s \<Rightarrow>
          if section_questions s \<noteq> [] then
            (let qs = (case current_question st of
                         Some q \<Rightarrow> if question_options q \<noteq> [] then section_questions s @ [q] else section_questions s
                       | None \<Rightarrow> section_questions s)
             in quiz_sections st @ [s\<lparr> section_questions := apply_answers (current_answers st) qs \<rparr>])
          else quiz_sections st
      | None \<Rightarrow> quiz_sections st)"

text \<open>The document as it stands before the images are bound.\<close>

definition parse_lines :: "unicode \<Rightarrow> ustr \<Rightarrow> lines \<Rightarrow> QuizData" where
  "parse_lines U name lines_with_pages =
     \<lparr> source_file = name, sections = finish (scan U initial_state lines_with_pages) \<rparr>"

section \<open>Binding images to questions\<close>

text \<open>
  An image descriptor, as far as the binder reads it. \<open>images_by_page\<close> maps a page
  number to the page's descriptors in reading order.
\<close>

record image_info =
  filename :: ustr
  page :: int

definition EXCLUDE_IMAGE :: "(int \<times> int) set" where
  "EXCLUDE_IMAGE = {(17, 8)}"

definition IMAGE_KEYWORDS :: "ustr list" where
  "IMAGE_KEYWORDS =
     [u ''obr'' @ [225] @ u ''zku'', u ''obr'' @ [225] @ u ''zek'', u ''obr'' @ [225] @ u ''zk'' @ [367],
      u ''na obr'' @ [225] @ u ''zku'', u ''na map'' @ [283],
      u ''bankovce'',
      u ''tato socha'', u ''t'' @ [233] @ u ''to sochy'',
      u ''tato panovnice'',
      u ''tato budova'', u ''t'' @ [233] @ u ''to budovy'', u ''tato stavba'',
      u ''tato hora'']"

text \<open>\<open>any(kw in q_lower for kw in IMAGE_KEYWORDS)\<close> with \<open>q_lower = question.text.lower()\<close>.\<close>

definition mentions_image :: "unicode \<Rightarrow> Question \<Rightarrow> bool" where
  "mentions_image U question =
     list_ex (\<lambda>kw. contains kw (lower U (question_text question))) IMAGE_KEYWORDS"

text \<open>\<open>images_by_page.get(p, [])\<close>\<close>

definition get_images :: "(int \<rightharpoonup> image_info list) \<Rightarrow> int \<Rightarrow> image_info list" where
  "get_images images_by_page p = (case images_by_page p of Some imgs \<Rightarrow> imgs | None \<Rightarrow> [])"

text \<open>
  The candidate images of a question: those of its page, or those of the next page when
  its page has none and the question mentions an image.
\<close>

definition candidate_images ::
  "unicode \<Rightarrow> (int \<rightharpoonup> image_info list) \<Rightarrow> Question \<Rightarrow> image_info list" where
  "candidate_images U images_by_page question =
     (let page_images = get_images images_by_page (question_page question) in
      if page_images = [] \<and> mentions_image U question
      then get_images images_by_page (question_page question + 1)
      else page_images)"

text \<open>\<open>f"{images_dir}/{img['filename']}"\<close>\<close>

definition image_path :: "ustr \<Rightarrow> image_info \<Rightarrow> ustr" where
  "image_path images_dir img = images_dir @ [47] @ filename img"

text \<open>
  \<open>for idx, opt in enumerate(question.options): if idx < len(page_images): opt.image = ...\<close>
\<close>

definition assign_options :: "ustr \<Rightarrow> image_info list \<Rightarrow> Option list \<Rightarrow> Option list" where
  "assign_options images_dir page_images opts =
     map (\<lambda>(idx, opt). if idx < length page_images
                        then opt\<lparr> option_image := Some (image_path images_dir (page_images ! idx)) \<rparr>
                        else opt)
       (enumerate 0 opts)"

text \<open>The body of the inner loop, for one question of the section with id \<open>sid\<close>.\<close>

definition assign_question ::
  "unicode \<Rightarrow> (int \<rightharpoonup> image_info list) \<Rightarrow> ustr \<Rightarrow> int \<Rightarrow> Question \<Rightarrow> Question" where
  "assign_question U images_by_page images_dir sid question =
     (if (sid, question_id question) \<in> EXCLUDE_IMAGE then question
      else
        let mentions = mentions_image U question;
            page_images = candidate_images U images_by_page question
        in if page_images = [] then question
           else if list_all (\<lambda>opt. length (option_text opt) < 50) (question_options question) \<and>
                   length (question_options question) = 4 \<and> 4 \<le> length page_images \<and> mentions
           then question\<lparr> question_options :=
                  assign_options images_dir page_images (question_options question) \<rparr>
           else if 1 \<le> length page_images \<and> mentions
           then question\<lparr> question_image := Some (image_path images_dir (hd page_images)) \<rparr>
           else question)"

definition assign_images_to_questions ::
  "unicode \<Rightarrow> QuizData \<Rightarrow> (int \<rightharpoonup> image_info list) \<Rightarrow> ustr \<Rightarrow> QuizData" where
  "assign_images_to_questions U quiz_data images_by_page images_dir =
     quiz_data\<lparr> sections :=
       map (\<lambda>s. s\<lparr> section_questions :=
                  map (assign_question U images_by_page images_dir (section_id s))
                    (section_questions s) \<rparr>)
         (sections quiz_data) \<rparr>"

text \<open>
  \<open>parse_pdf\<close> from the extracted lines and the curated images on: the line scan, then
  the binder on the finished document.
\<close>

definition parse_pdf ::
  "unicode \<Rightarrow> ustr \<Rightarrow> lines \<Rightarrow> (int \<rightharpoonup> image_info list) \<Rightarrow> ustr \<Rightarrow> QuizData" where
  "parse_pdf U name lines_with_pages images_by_page images_dir =
     assign_images_to_questions U (parse_lines U name lines_with_pages) images_by_page images_dir"

section \<open>The serializer\<close>

text \<open>
  The values \<open>convert_to_dict\<close> builds: strings, integers, lists and dictionaries with
  their keys in insertion order.
\<close>

datatype json = JStr ustr | JInt int | JList "json list" | JDict "(string \<times> json) list"

text \<open>\<open>**({key: x} if x else {})\<close>: \<open>None\<close> and the empty string are false.\<close>

definition optional_entry :: "string \<Rightarrow> ustr option \<Rightarrow> (string \<times> json) list" where
  "optional_entry key x =
     (case x of Some s \<Rightarrow> if s \<noteq> [] then [(key, JStr s)] else [] | None \<Rightarrow> [])"

definition option_dict :: "Option \<Rightarrow> json" where
  "option_dict opt =
     JDict ([(''label'', JStr (option_label opt)), (''text'', JStr (option_text opt))]
            @ optional_entry ''image'' (option_image opt))"

definition question_dict :: "Question \<Rightarrow> json" where
  "question_dict q =
     JDict ([(''id'', JInt (question_id q)), (''text'', JStr (question_text q)),
             (''options'', JList (map option_dict (question_options q))),
             (''correct'', JStr (question_correct q))]
            @ optional_entry ''image'' (question_image q)
            @ optional_entry ''date'' (question_date q))"

definition section_dict :: "Section \<Rightarrow> json" where
  "section_dict s =
     JDict [(''id'', JInt (section_id s)), (''name'', JStr (section_name s)),
            (''questions'', JList (map question_dict (section_questions s)))]"

definition convert_to_dict :: "QuizData \<Rightarrow> json" where
  "convert_to_dict quiz_data =
     JDict [(''source_file'', JStr (source_file quiz_data)),
            (''sections'', JList (map section_dict (sections quiz_data)))]"

section \<open>The validator\<close>



text \<open>\<open>x[key]\<close> on a dictionary \<open>x\<close>.\<close>

definition subscript :: "json \<Rightarrow> string \<Rightarrow> json option" where
  "subscript x key = (case x of JDict kvs \<Rightarrow> map_of kvs key | _ \<Rightarrow> None)"





















section \<open>Properties of the documents\<close>

text \<open>A property of every question of every section of a document.\<close>

definition all_questions :: "(Question \<Rightarrow> bool) \<Rightarrow> QuizData \<Rightarrow> bool" where
  "all_questions P quiz_data =
     list_all (\<lambda>s. list_all P (section_questions s)) (sections quiz_data)"

text \<open>The sections the scan holds: the committed ones and the open one.\<close>

definition held_sections :: "parser_state \<Rightarrow> Section list" where
  "held_sections st =
     quiz_sections st @ (case current_section st of Some s \<Rightarrow> [s] | None \<Rightarrow> [])"

definition has_options :: "Question \<Rightarrow> bool" where
  "has_options q = (question_options q \<noteq> [])"

definition correct_is_option_label :: "Question \<Rightarrow> bool" where
  "correct_is_option_label q =
     (question_correct q = [] \<or> question_correct q \<in> set (map option_label (question_options q)))"

definition correct_is_letter :: "Question \<Rightarrow> bool" where
  "correct_is_letter q =
     (question_correct q \<in> set [[], u ''A'', u ''B'', u ''C'', u ''D''])"

text \<open>
  A text without whitespace at either end and without two whitespace characters in a
  row.
\<close>

fun no_double_space :: "ustr \<Rightarrow> bool" where
  "no_double_space (a # b # cs) = (\<not> (isspace a \<and> isspace b) \<and> no_double_space (b # cs))"
| "no_double_space cs = True"

definition trimmed :: "ustr \<Rightarrow> bool" where
  "trimmed s = (s = [] \<or> (\<not> isspace (hd s) \<and> \<not> isspace (last s)))"

definition normalized :: "ustr \<Rightarrow> bool" where
  "normalized s = (trimmed s \<and> no_double_space s)"

definition texts_normalized :: "Question \<Rightarrow> bool" where
  "texts_normalized q =
     (normalized (question_text q) \<and> list_all normalized (map option_text (question_options q)))"

text \<open>
  The image paths a question holds after the binder, its own first and then its
  options', and those of a whole document.
\<close>

definition assigned_images :: "Question \<Rightarrow> ustr list" where
  "assigned_images q =
     (case question_image q of Some path \<Rightarrow> [path] | None \<Rightarrow> []) @
     concat (map (\<lambda>opt. case option_image opt of Some path \<Rightarrow> [path] | None \<Rightarrow> [])
               (question_options q))"

definition document_images :: "QuizData \<Rightarrow> ustr list" where
  "document_images quiz_data =
     concat (map (\<lambda>s. concat (map assigned_images (section_questions s))) (sections quiz_data))"

definition images_distinct :: "Question \<Rightarrow> bool" where
  "images_distinct q = distinct (assigned_images q)"

text \<open>An option with the path of an image in its image field.\<close>

definition with_image :: "ustr \<Rightarrow> Option \<Rightarrow> image_info \<Rightarrow> Option" where
  "with_image images_dir opt img = opt\<lparr> option_image := Some (image_path images_dir img) \<rparr>"

text \<open>
  A line that reaches the answer-key branch of the loop body: it is not skipped, is not a
  section header, and contains the marker.
\<close>

definition answer_key_line :: "unicode \<Rightarrow> ustr \<Rightarrow> bool" where
  "answer_key_line U raw =
     (let line = strip raw in
      \<not> (line = [] \<or> re_page_number line) \<and>
      \<not> (line = TESTOVE_ULOHY \<or> line = OBCANSKY_ZAKLAD) \<and>
      section_header U line = None \<and>
      (contains ANSWERS_COLON line \<or> contains ANSWERS line))"

text \<open>A token of an answer-key line as an entry of the answer map.\<close>

definition token_entry :: "ustr \<times> ustr \<Rightarrow> int \<times> ustr" where
  "token_entry t = (py_int (fst t), snd t)"

text \<open>
  The keys of a serialized dictionary in order, and what the serializer takes as a
  present optional field.
\<close>

definition keys :: "json \<Rightarrow> string list" where
  "keys x = (case x of JDict kvs \<Rightarrow> map fst kvs | _ \<Rightarrow> [])"

definition present :: "ustr option \<Rightarrow> bool" where
  "present x = (case x of Some s \<Rightarrow> s \<noteq> [] | None \<Rightarrow> False)"




subsection \<open>Invariants\<close>

text \<open>
  What the substitution leaves: every whitespace character is a single space that no
  whitespace follows.
\<close>

fun tidy :: "ustr \<Rightarrow> bool" where
  "tidy [] = True"
| "tidy (c # cs) = ((if isspace c then c = 32 \<and> (cs = [] \<or> \<not> isspace (hd cs)) else True) \<and> tidy cs)"

text \<open>
  What the scan keeps: answers are single letters A to D; every question has cleaned
  texts, no image yet and a correct field that is empty or such a letter; a question in a
  section's list has an option besides.
\<close>

definition is_letter :: "ustr \<Rightarrow> bool" where
  "is_letter l = (case l of [c] \<Rightarrow> is_AD c | _ \<Rightarrow> False)"

definition good_option :: "Option \<Rightarrow> bool" where
  "good_option opt = (clean_text (option_text opt) = option_text opt \<and> option_image opt = None)"

definition good_question :: "Question \<Rightarrow> bool" where
  "good_question q =
     ((question_correct q = [] \<or> is_letter (question_correct q)) \<and>
      clean_text (question_text q) = question_text q \<and> question_image q = None \<and>
      list_all good_option (question_options q))"

definition committed :: "Question \<Rightarrow> bool" where
  "committed q = (good_question q \<and> question_options q \<noteq> [])"

definition letters_only :: "(int \<rightharpoonup> ustr) \<Rightarrow> bool" where
  "letters_only answers = (\<forall>k l. answers k = Some l \<longrightarrow> is_letter l)"

definition state_ok :: "parser_state \<Rightarrow> bool" where
  "state_ok st =
     (list_all (\<lambda>s. list_all committed (section_questions s)) (quiz_sections st) \<and>
      (case current_section st of None \<Rightarrow> True | Some s \<Rightarrow> list_all committed (section_questions s)) \<and>
      (case current_question st of None \<Rightarrow> True | Some q \<Rightarrow> good_question q) \<and>
      letters_only (current_answers st))"

subsection \<open>Inputs for the examples\<close>

text \<open>An input for the examples: one section, one question of two lines, two options, a key.\<close>

definition example_lines :: lines where
  "example_lines =
     [(u ''1. HISTORIE'', 1), (u ''1. Kdo je'', 1), (u ''   na bankovce?  '', 1),
      (u ''A) Karel   IV.'', 1), (u ''B) nikdo'', 1),
      (ANSWERS_COLON @ u '' 1A'', 1)]"

definition example_images :: "int \<rightharpoonup> image_info list" where
  "example_images = [1 \<mapsto> [\<lparr> filename = u ''page01_img01.png'', page = 1 \<rparr>]]"

text \<open>A question with four short options on a page with four images.\<close>

definition grid_lines :: lines where
  "grid_lines =
     [(u ''1. HISTORIE'', 1), (u ''1. Kdo je na bankovce?'', 1),
      (u ''A) prvni'', 1), (u ''B) druhy'', 1), (u ''C) treti'', 1), (u ''D) ctvrty'', 1),
      (ANSWERS_COLON @ u '' 1B'', 1)]"

definition grid_images :: "int \<rightharpoonup> image_info list" where
  "grid_images =
     [1 \<mapsto> [\<lparr> filename = u ''page01_img01.png'', page = 1 \<rparr>,
              \<lparr> filename = u ''page01_img02.png'', page = 1 \<rparr>,
              \<lparr> filename = u ''page01_img03.png'', page = 1 \<rparr>,
              \<lparr> filename = u ''page01_img04.png'', page = 1 \<rparr>]]"

text \<open>Two questions on one page that both mention the banknote.\<close>

definition shared_page_lines :: lines where
  "shared_page_lines =
     [(u ''1. HISTORIE'', 1),
      (u ''1. Kdo je na bankovce?'', 1), (u ''A) nikdo'', 1),
      (u ''2. Co je na bankovce?'', 1), (u ''A) nic'', 1),
      (ANSWERS_COLON @ u '' 1A, 2A'', 1)]"

text \<open>The question of the exclusion set, with its keyword.\<close>

definition excluded_lines :: lines where
  "excluded_lines =
     [(u ''17. HORY'', 1),
      (u ''8. Jak vysoka je tato hora?'', 1), (u ''A) 1603 m'', 1),
      (ANSWERS_COLON @ u '' 8A'', 1)]"

text \<open>One section with an answer-key line after each of its two questions.\<close>

definition two_keys :: lines where
  "two_keys =
     [(u ''1. HISTORIE'', 1),
      (u ''1. Kdo?'', 1), (u ''A) nikdo'', 1), (ANSWERS_COLON @ u '' 1A'', 1),
      (u ''2. Co?'', 1), (u ''A) nic'', 1), (ANSWERS_COLON @ u '' 2A'', 2)]"

section \<open>Lemmas\<close>

subsection \<open>Text normalization\<close>

lemma isspace_32: "isspace 32"
  by (simp add: isspace_def)

lemma hd_sub_ws: "xs \<noteq> [] \<Longrightarrow> isspace (hd (sub_ws xs)) = isspace (hd xs)"
  by (cases xs) (simp_all add: isspace_32)

lemma sub_ws_Nil: "sub_ws xs = [] \<longleftrightarrow> xs = []"
  by (cases xs) simp_all

lemma tidy_sub_ws: "tidy (sub_ws s)"
proof (induction s rule: sub_ws.induct)
  case 1
  show ?case by simp
next
  case (2 c cs)
  show ?case
  proof (cases "isspace c")
    case True
    let ?r = "dropWhile isspace cs"
    have "?r = [] \<or> \<not> isspace (hd ?r)"
      using hd_dropWhile [of isspace cs] by blast
    then have "sub_ws ?r = [] \<or> \<not> isspace (hd (sub_ws ?r))"
      using hd_sub_ws [of ?r] sub_ws_Nil [of ?r] by blast
    with True 2 show ?thesis by simp
  next
    case False
    with 2 show ?thesis by simp
  qed
qed

lemma sub_ws_tidy: "tidy s \<Longrightarrow> sub_ws s = s"
proof (induction s)
  case Nil
  show ?case by simp
next
  case (Cons c cs)
  show ?case
  proof (cases "isspace c")
    case True
    with Cons.prems have c: "c = 32" and "cs = [] \<or> \<not> isspace (hd cs)" by simp_all
    then have "dropWhile isspace cs = cs" by (cases cs) auto
    with True c Cons show ?thesis by simp
  next
    case False
    with Cons show ?thesis by simp
  qed
qed

lemma tidy_append: "tidy (xs @ ys) \<Longrightarrow> tidy xs \<and> tidy ys"
proof (induction xs)
  case Nil
  then show ?case by simp
next
  case (Cons x xs)
  then show ?case by (cases xs) (auto split: if_splits)
qed

lemma tidy_dropWhile: "tidy s \<Longrightarrow> tidy (dropWhile P s)"
  using tidy_append [of "takeWhile P s" "dropWhile P s"] by simp

lemma tidy_butlast_run: "tidy s \<Longrightarrow> tidy (rev (dropWhile P (rev s)))"
proof -
  assume t: "tidy s"
  have "s = rev (dropWhile P (rev s)) @ rev (takeWhile P (rev s))"
    by (metis rev_append rev_rev_ident takeWhile_dropWhile_id)
  with t show ?thesis using tidy_append by metis
qed

lemma tidy_strip: "tidy s \<Longrightarrow> tidy (strip s)"
  by (simp add: strip_def tidy_dropWhile tidy_butlast_run)

lemma rstrip_keeps_head:
  assumes "t = [] \<or> \<not> P (hd t)"
  shows "rev (dropWhile P (rev t)) = [] \<or>
    (\<not> P (hd (rev (dropWhile P (rev t)))) \<and> \<not> P (last (rev (dropWhile P (rev t)))))"
proof (cases "rev (dropWhile P (rev t)) = []")
  case True
  then show ?thesis by simp
next
  case False
  let ?r = "rev (dropWhile P (rev t))"
  have p: "t = ?r @ rev (takeWhile P (rev t))"
    by (metis rev_append rev_rev_ident takeWhile_dropWhile_id)
  from False have "hd ?r = hd t"
    using p by (metis hd_append2)
  moreover from False have "t \<noteq> []" by auto
  moreover from False have "\<not> P (last ?r)"
    using hd_dropWhile [of P "rev t"] by (simp add: last_rev)
  ultimately show ?thesis using assms by simp
qed

lemma trimmed_strip: "trimmed (strip s)"
  unfolding trimmed_def strip_def
  using rstrip_keeps_head [of "dropWhile isspace s" isspace] hd_dropWhile [of isspace s]
  by blast

lemma strip_trimmed: "trimmed s \<Longrightarrow> strip s = s"
proof (cases s)
  case Nil
  then show ?thesis by (simp add: strip_def)
next
  case (Cons c cs)
  assume "trimmed s"
  with Cons have h: "\<not> isspace (hd s)" and l: "\<not> isspace (last s)"
    by (simp_all add: trimmed_def)
  from h Cons have 1: "dropWhile isspace s = s" by simp
  from l Cons have 2: "dropWhile isspace (rev s) = rev s"
    by (metis dropWhile_eq_self_iff hd_rev)
  show ?thesis by (simp add: strip_def 1 2)
qed

lemma clean_text_idem: "clean_text (clean_text s) = clean_text s"
proof -
  have "tidy (strip (sub_ws s))" by (simp add: tidy_strip tidy_sub_ws)
  then have "sub_ws (strip (sub_ws s)) = strip (sub_ws s)" by (rule sub_ws_tidy)
  then show ?thesis by (simp add: clean_text_def strip_trimmed trimmed_strip)
qed

lemma tidy_no_double_space: "tidy s \<Longrightarrow> no_double_space s"
  by (induction s rule: no_double_space.induct) (auto split: if_splits)

lemma clean_text_normal: "trimmed (clean_text s) \<and> no_double_space (clean_text s)"
  by (simp add: clean_text_def trimmed_strip tidy_no_double_space tidy_strip tidy_sub_ws)

subsection \<open>The scan keeps its invariant\<close>

lemma findall_answers_letters:
  "(num, l) \<in> set (findall_answers s) \<Longrightarrow> is_letter l"
proof (induction s rule: findall_answers.induct)
  case 1
  then show ?case by simp
next
  case (2 c cs)
  then show ?case
    by (auto simp: Let_def is_letter_def split: if_splits simp del: dropWhile.simps takeWhile.simps)
qed

lemma foldl_answers_letters:
  "letters_only m \<Longrightarrow> \<forall>t \<in> set ts. is_letter (snd t) \<Longrightarrow>
   letters_only (foldl set_answer m ts)"
proof (induction ts arbitrary: m)
  case Nil
  then show ?case by simp
next
  case (Cons t ts)
  have "letters_only (set_answer m t)"
    using Cons.prems by (auto simp: letters_only_def set_answer_def)
  then show ?case using Cons by simp
qed

lemma parse_answers_line_letters: "letters_only (parse_answers_line line)"
  unfolding parse_answers_line_def
  by (rule foldl_answers_letters) (auto simp: letters_only_def dest: findall_answers_letters)

lemma apply_answers_committed:
  "letters_only answers \<Longrightarrow> list_all committed qs \<Longrightarrow> list_all committed (apply_answers answers qs)"
  by (auto simp: apply_answers_def list_all_iff committed_def good_question_def letters_only_def
      split: option.splits)

lemma commit_question_ok: "state_ok st \<Longrightarrow> state_ok (commit_question st)"
  by (auto simp: state_ok_def commit_question_def committed_def split: option.splits)

lemma commit_section_ok: "state_ok st \<Longrightarrow> state_ok (commit_section st)"
  by (auto simp: state_ok_def commit_section_def apply_answers_committed split: option.splits)

lemma start_section_ok: "state_ok st \<Longrightarrow> state_ok (start_section st num title)"
  using commit_section_ok [OF commit_question_ok, of st]
  by (simp add: start_section_def state_ok_def letters_only_def)

lemma answers_line_ok: "state_ok st \<Longrightarrow> state_ok (answers_line st line)"
  using commit_question_ok [of st]
  by (simp add: answers_line_def state_ok_def parse_answers_line_letters)

lemma start_question_ok:
  "state_ok st \<Longrightarrow> list_all committed (section_questions sec) \<Longrightarrow>
   state_ok (fst (start_question st sec n t p rest))"
  by (auto simp: start_question_def state_ok_def Let_def committed_def good_question_def
      clean_text_idem split: option.splits prod.splits)

lemma option_or_date_ok: "state_ok st \<Longrightarrow> state_ok (fst (option_or_date st line rest))"
  by (auto simp: option_or_date_def state_ok_def good_question_def good_option_def
      clean_text_idem split: option.splits prod.splits)

lemma question_branch_ok: "state_ok st \<Longrightarrow> state_ok (fst (question_branch U st line p rest))"
proof -
  assume ok: "state_ok st"
  let ?sec = "case current_section st of
      None \<Rightarrow> \<lparr> section_id = 0, section_name = POKRACOVANI, section_questions = [] \<rparr>
    | Some s \<Rightarrow> s"
  have sec: "list_all committed (section_questions ?sec)"
    using ok by (auto simp: state_ok_def split: option.splits)
  have st1: "state_ok (st\<lparr> current_section := Some ?sec \<rparr>)"
    using ok sec by (simp add: state_ok_def)
  show ?thesis
    using ok sec st1
    by (simp add: question_branch_def Let_def start_question_ok option_or_date_ok
        split: option.splits prod.splits)
qed

lemma step_ok: "state_ok st \<Longrightarrow> state_ok (fst (step U st raw p rest))"
  by (simp add: step_def Let_def start_section_ok answers_line_ok question_branch_ok
      split: option.splits prod.splits)

lemma scan_ok: "state_ok st \<Longrightarrow> state_ok (scan U st ls)"
proof (induction U st ls rule: scan.induct)
  case (1 U st)
  then show ?case by simp
next
  case (2 U st raw page_num rest)
  obtain st' rest' where s: "step U st raw page_num rest = (st', rest')"
    by (cases "step U st raw page_num rest")
  have "state_ok st'"
    using step_ok [OF "2.prems", of U raw page_num rest] by (simp add: s)
  then show ?case
    using "2.IH" s by auto
qed

lemma initial_state_ok: "state_ok initial_state"
  by (simp add: state_ok_def initial_state_def letters_only_def)

lemma finish_ok: "state_ok st \<Longrightarrow> list_all (\<lambda>s. list_all committed (section_questions s)) (finish st)"
  by (auto simp: finish_def state_ok_def Let_def committed_def
      intro!: apply_answers_committed split: option.splits)

lemma parse_lines_committed:
  "list_all (\<lambda>s. list_all committed (section_questions s)) (sections (parse_lines U name ls))"
  by (simp add: parse_lines_def finish_ok scan_ok initial_state_ok)

subsection \<open>The binder keeps texts, labels and answers\<close>

lemma is_letter_cases: "is_letter l \<Longrightarrow> l \<in> set [u ''A'', u ''B'', u ''C'', u ''D'']"
proof -
  assume "is_letter l"
  then obtain c where l: "l = [c]" and c: "65 \<le> c" "c \<le> 68"
    by (auto simp: is_letter_def is_AD_def split: list.splits)
  from c have "c = 65 \<or> c = 66 \<or> c = 67 \<or> c = 68" by arith
  then show ?thesis by (auto simp: l u_def)
qed

lemma committed_has_options: "committed q \<Longrightarrow> has_options q"
  by (simp add: committed_def has_options_def)

lemma committed_correct_is_letter: "committed q \<Longrightarrow> correct_is_letter q"
  using is_letter_cases [of "question_correct q"]
  by (auto simp: committed_def good_question_def correct_is_letter_def)

lemma clean_fixed_normalized: "clean_text s = s \<Longrightarrow> normalized s"
  using clean_text_normal [of s] by (simp add: normalized_def)

lemma committed_texts_normalized: "committed q \<Longrightarrow> texts_normalized q"
  by (auto simp: committed_def good_question_def texts_normalized_def good_option_def
      list_all_iff intro: clean_fixed_normalized)

lemma assign_options_text: "map option_text (assign_options d imgs opts) = map option_text opts"
proof -
  have "map option_text (map (\<lambda>(idx, opt). if idx < length imgs
          then opt\<lparr> option_image := Some (image_path d (imgs ! idx)) \<rparr> else opt)
          (enumerate n opts)) = map option_text opts" for n
    by (induction opts arbitrary: n) simp_all
  then show ?thesis by (simp add: assign_options_def)
qed

lemma assign_options_label: "map option_label (assign_options d imgs opts) = map option_label opts"
proof -
  have "map option_label (map (\<lambda>(idx, opt). if idx < length imgs
          then opt\<lparr> option_image := Some (image_path d (imgs ! idx)) \<rparr> else opt)
          (enumerate n opts)) = map option_label opts" for n
    by (induction opts arbitrary: n) simp_all
  then show ?thesis by (simp add: assign_options_def)
qed

lemma assign_options_length: "length (assign_options d imgs opts) = length opts"
  by (simp add: assign_options_def)

lemma assign_question_keeps:
  "question_correct (assign_question U imgs d sid q) = question_correct q"
  "question_text (assign_question U imgs d sid q) = question_text q"
  "question_id (assign_question U imgs d sid q) = question_id q"
  "map option_text (question_options (assign_question U imgs d sid q)) = map option_text (question_options q)"
  "map option_label (question_options (assign_question U imgs d sid q)) = map option_label (question_options q)"
  "length (question_options (assign_question U imgs d sid q)) = length (question_options q)"
  by (simp_all add: assign_question_def Let_def assign_options_text assign_options_label
      assign_options_length)

lemma assign_question_has_options:
  "has_options (assign_question U imgs d sid q) = has_options q"
  using assign_question_keeps(6) [of U imgs d sid q] unfolding has_options_def
  by (metis length_0_conv)

lemma all_questions_assign:
  assumes "\<And>sid q. P q \<Longrightarrow> P (assign_question U imgs d sid q)"
    and "all_questions P quiz_data"
  shows "all_questions P (assign_images_to_questions U quiz_data imgs d)"
  using assms by (auto simp: all_questions_def assign_images_to_questions_def list_all_iff)

lemma all_questions_mono:
  "(\<And>q. P q \<Longrightarrow> Q q) \<Longrightarrow> all_questions P quiz_data \<Longrightarrow> all_questions Q quiz_data"
  by (auto simp: all_questions_def list_all_iff)

lemma parse_lines_all_committed: "all_questions committed (parse_lines U name ls)"
  using parse_lines_committed [of U name ls] by (simp add: all_questions_def)

lemma scan_held_committed:
  "list_all (\<lambda>s. list_all committed (section_questions s)) (held_sections (scan U initial_state ls))"
  using scan_ok [OF initial_state_ok, of U ls]
  by (auto simp: state_ok_def held_sections_def split: option.splits)

subsection \<open>Answer-key lines\<close>

lemma foldl_set_answer:
  "foldl set_answer m ts = m ++ map_of (rev (map token_entry ts))"
proof (induction ts arbitrary: m)
  case Nil
  show ?case by simp
next
  case (Cons t ts)
  have "set_answer m t = m ++ map_of [token_entry t]"
    by (simp add: set_answer_def token_entry_def)
  then show ?case
    by (simp add: Cons.IH map_of_append del: map_of.simps)
qed

lemma parse_answers_line_map_of:
  "parse_answers_line line = map_of (rev (map token_entry (findall_answers line)))"
  by (simp add: parse_answers_line_def foldl_set_answer)

lemma step_answer_key_line:
  "answer_key_line U raw \<Longrightarrow> step U st raw p rest = (answers_line st (strip raw), rest)"
  by (simp add: answer_key_line_def step_def Let_def)

lemma answers_line_forgets:
  "answers_line (st\<lparr> current_answers := m \<rparr>) line = answers_line st line"
  by (simp add: answers_line_def commit_question_def split: option.splits)

subsection \<open>The binder\<close>

lemma assign_options_map2:
  assumes "length opts \<le> length imgs"
  shows "assign_options d imgs opts = map2 (with_image d) opts (take (length opts) imgs)"
proof (rule nth_equalityI)
  show "length (assign_options d imgs opts) = length (map2 (with_image d) opts (take (length opts) imgs))"
    using assms by (simp add: assign_options_def)
next
  fix i
  assume "i < length (assign_options d imgs opts)"
  then have i: "i < length opts" by (simp add: assign_options_def)
  with assms have i': "i < length imgs" by simp
  show "assign_options d imgs opts ! i = map2 (with_image d) opts (take (length opts) imgs) ! i"
    using i i' by (simp add: assign_options_def nth_enumerate_eq with_image_def)
qed

lemma assign_question_grid:
  assumes "(sid, question_id q) \<notin> EXCLUDE_IMAGE"
    and "length (question_options q) = 4"
    and "list_all (\<lambda>opt. length (option_text opt) < 50) (question_options q)"
    and "4 \<le> length (candidate_images U imgs q)"
    and "mentions_image U q"
  shows "assign_question U imgs d sid q =
     q\<lparr> question_options := map2 (with_image d) (question_options q) (take 4 (candidate_images U imgs q)) \<rparr>"
proof -
  have "candidate_images U imgs q \<noteq> []" using assms(4) by auto
  moreover have "assign_options d (candidate_images U imgs q) (question_options q)
      = map2 (with_image d) (question_options q) (take 4 (candidate_images U imgs q))"
    using assign_options_map2 [of "question_options q" "candidate_images U imgs q" d] assms(2,4)
    by simp
  ultimately show ?thesis
    using assms by (simp add: assign_question_def Let_def)
qed

lemma assign_images_nth:
  assumes "i < length (sections quiz_data)"
    and "j < length (section_questions (sections quiz_data ! i))"
  shows "section_questions (sections (assign_images_to_questions U quiz_data imgs d) ! i) ! j
     = assign_question U imgs d (section_id (sections quiz_data ! i))
         (section_questions (sections quiz_data ! i) ! j)"
  using assms by (simp add: assign_images_to_questions_def)

lemma image_path_inj: "image_path d a = image_path d b \<Longrightarrow> filename a = filename b"
  by (simp add: image_path_def)

lemma distinct_paths:
  assumes "distinct (map filename imgs)"
  shows "distinct (map (image_path d) imgs)"
proof -
  from assms have inj: "inj_on filename (set imgs)" and di: "distinct imgs"
    by (simp_all add: distinct_map)
  have "inj_on (image_path d) (set imgs)"
  proof (rule inj_onI)
    fix a b
    assume a: "a \<in> set imgs" and b: "b \<in> set imgs" and e: "image_path d a = image_path d b"
    have "filename a = filename b" using e by (rule image_path_inj)
    with inj show "a = b" using a b by (rule inj_onD)
  qed
  with di show ?thesis by (simp add: distinct_map)
qed

lemma option_paths_map2:
  "length opts \<le> length imgs \<Longrightarrow>
   concat (map (\<lambda>opt. case option_image opt of Some path \<Rightarrow> [path] | None \<Rightarrow> [])
             (map2 (with_image d) opts imgs))
   = map (image_path d) (take (length opts) imgs)"
proof (induction opts arbitrary: imgs)
  case Nil
  show ?case by simp
next
  case (Cons opt opts)
  then obtain img imgs' where "imgs = img # imgs'" by (cases imgs) auto
  with Cons show ?case by (simp add: with_image_def)
qed

lemma no_option_paths:
  "list_all good_option opts \<Longrightarrow>
   concat (map (\<lambda>opt. case option_image opt of Some path \<Rightarrow> [path] | None \<Rightarrow> []) opts) = []"
  by (induction opts) (simp_all add: good_option_def)

lemma candidate_images_distinct:
  assumes "\<And>p imgs. images_by_page p = Some imgs \<Longrightarrow> distinct (map filename imgs)"
  shows "distinct (map filename (candidate_images U images_by_page q))"
proof -
  have "distinct (map filename (get_images images_by_page p))" for p
    using assms by (simp add: get_images_def split: option.splits)
  then show ?thesis by (simp add: candidate_images_def Let_def)
qed

lemma assign_question_cases:
  "assign_question U imgs d sid q = q \<or>
   (length (question_options q) = 4 \<and> 4 \<le> length (candidate_images U imgs q) \<and>
    assign_question U imgs d sid q
      = q\<lparr> question_options := assign_options d (candidate_images U imgs q) (question_options q) \<rparr>) \<or>
   assign_question U imgs d sid q
      = q\<lparr> question_image := Some (image_path d (hd (candidate_images U imgs q))) \<rparr>"
  by (simp add: assign_question_def Let_def)

lemma all_questions_assign_from:
  assumes "\<And>sid q. P q \<Longrightarrow> Q (assign_question U imgs d sid q)"
    and "all_questions P quiz_data"
  shows "all_questions Q (assign_images_to_questions U quiz_data imgs d)"
  using assms by (simp add: all_questions_def assign_images_to_questions_def list_all_iff)

lemma assign_question_distinct:
  assumes "\<And>p imgs. images_by_page p = Some imgs \<Longrightarrow> distinct (map filename imgs)"
    and "committed q"
  shows "images_distinct (assign_question U images_by_page d sid q)"
proof -
  let ?c = "candidate_images U images_by_page q"
  let ?paths = "\<lambda>opts. concat (map (\<lambda>opt. case option_image opt of Some path \<Rightarrow> [path] | None \<Rightarrow> []) opts)"
  have g: "question_image q = None" "list_all good_option (question_options q)"
    using assms(2) by (simp_all add: committed_def good_question_def)
  have none: "assigned_images q = []"
    using g by (simp add: assigned_images_def no_option_paths)
  have dc: "distinct (map (image_path d) ?c)"
    using candidate_images_distinct [OF assms(1)] by (rule distinct_paths)
  have "map (image_path d) (take 4 ?c) = take 4 (map (image_path d) ?c)"
    by (simp add: take_map)
  then have d4: "distinct (map (image_path d) (take 4 ?c))"
    using dc by simp
  consider (same) "assign_question U images_by_page d sid q = q"
    | (grid) "length (question_options q) = 4" "4 \<le> length ?c"
        "assign_question U images_by_page d sid q
           = q\<lparr> question_options := assign_options d ?c (question_options q) \<rparr>"
    | (single) "assign_question U images_by_page d sid q
           = q\<lparr> question_image := Some (image_path d (hd ?c)) \<rparr>"
    using assign_question_cases [of U images_by_page d sid q] by blast
  then show ?thesis
  proof cases
    case same
    then show ?thesis by (simp add: images_distinct_def none)
  next
    case grid
    have "assign_options d ?c (question_options q)
        = map2 (with_image d) (question_options q) (take 4 ?c)"
      using assign_options_map2 [of "question_options q" ?c d] grid(1,2) by simp
    moreover have "?paths (map2 (with_image d) (question_options q) (take 4 ?c))
        = map (image_path d) (take 4 ?c)"
      using option_paths_map2 [of "question_options q" "take 4 ?c" d] grid(1,2) by simp
    ultimately have "assigned_images (assign_question U images_by_page d sid q)
        = map (image_path d) (take 4 ?c)"
      using g(1) by (simp add: assigned_images_def grid(3))
    then show ?thesis using d4 by (simp add: images_distinct_def)
  next
    case single
    have "assigned_images (assign_question U images_by_page d sid q) = [image_path d (hd ?c)]"
      using g by (simp add: assigned_images_def single no_option_paths)
    then show ?thesis by (simp add: images_distinct_def)
  qed
qed

subsection \<open>The serializer and the validator\<close>

lemma optional_entry_keys:
  "map fst (optional_entry key x) = (if present x then [key] else [])"
  by (simp add: optional_entry_def present_def split: option.splits)

lemma map_of_optional_entry:
  "map_of (optional_entry key x) k = (if present x \<and> k = key then map_option JStr x else None)"
  by (auto simp: optional_entry_def present_def split: option.splits)

lemma subscript_option_dict:
  "subscript (option_dict opt) ''label'' = Some (JStr (option_label opt))"
  "subscript (option_dict opt) ''text'' = Some (JStr (option_text opt))"
  "subscript (option_dict opt) ''image''
     = (if present (option_image opt) then map_option JStr (option_image opt) else None)"
  by (simp_all add: subscript_def option_dict_def map_of_optional_entry)

lemma subscript_question_dict:
  "subscript (question_dict q) ''id'' = Some (JInt (question_id q))"
  "subscript (question_dict q) ''text'' = Some (JStr (question_text q))"
  "subscript (question_dict q) ''options'' = Some (JList (map option_dict (question_options q)))"
  "subscript (question_dict q) ''correct'' = Some (JStr (question_correct q))"
  "subscript (question_dict q) ''image''
     = (if present (question_image q) then map_option JStr (question_image q) else None)"
  "subscript (question_dict q) ''date''
     = (if present (question_date q) then map_option JStr (question_date q) else None)"
  by (simp_all add: subscript_def question_dict_def map_of_optional_entry map_add_def
      split: option.splits)

lemma subscript_section_dict:
  "subscript (section_dict s) ''id'' = Some (JInt (section_id s))"
  "subscript (section_dict s) ''questions'' = Some (JList (map question_dict (section_questions s)))"
  by (simp_all add: subscript_def section_dict_def)

lemma keys_dicts:
  "keys (question_dict q)
     = [''id'', ''text'', ''options'', ''correct'']
       @ (if present (question_image q) then [''image''] else [])
       @ (if present (question_date q) then [''date''] else [])"
  "keys (option_dict opt)
     = [''label'', ''text''] @ (if present (option_image opt) then [''image''] else [])"
  by (simp_all add: keys_def question_dict_def option_dict_def optional_entry_keys)





















section \<open>The claims\<close>

text \<open>
  C1. At the end of the line scan an open section and an open question with an option
  are to be committed, also when that question is the section's only one. The code after
  the loop looks at the section's committed questions first and does nothing when there
  are none: on a header, a question and an option, the scan ends with the section and
  the question open, and the document has no section.
\<close>

theorem end_of_scan_drops_only_question:
  "current_section (scan basic_czech initial_state
      [(u ''1. HISTORIE'', 1), (u ''1. Kdo?'', 1), (u ''A) nikdo'', 1)])
     = Some \<lparr> section_id = 1, section_name = u ''HISTORIE'', section_questions = [] \<rparr> \<and>
   current_question (scan basic_czech initial_state
      [(u ''1. HISTORIE'', 1), (u ''1. Kdo?'', 1), (u ''A) nikdo'', 1)])
     = Some \<lparr> question_id = 1, question_text = u ''Kdo?'',
              question_options =
                [\<lparr> option_label = u ''A'', option_text = u ''nikdo'', option_image = None \<rparr>],
              question_correct = [], question_image = None, question_date = None,
              question_page = 1 \<rparr> \<and>
   sections (parse_pdf basic_czech (u ''t.pdf'')
      [(u ''1. HISTORIE'', 1), (u ''1. Kdo?'', 1), (u ''A) nikdo'', 1)]
      Map.empty (u ''t_images'')) = []"
  by code_simp

text \<open>
  C2, as stated: the correct field of every question is empty or the label of one of the
  question's options. It fails where the answer key names a letter the question has no
  option for.
\<close>

theorem correct_outside_option_labels:
  "\<not> all_questions correct_is_option_label
       (parse_pdf basic_czech (u ''t.pdf'')
          [(u ''1. HISTORIE'', 1), (u ''1. Kdo?'', 1), (u ''A) nikdo'', 1),
           (ANSWERS_COLON @ u '' 1D'', 1)]
          Map.empty (u ''t_images''))"
  by code_simp

text \<open>
  C2, amended: the correct field of every question of the produced document is empty or
  one of the letters A, B, C, D.
\<close>

theorem correct_is_answer_letter:
  "all_questions correct_is_letter (parse_pdf U name ls imgs d)"
proof -
  have "all_questions correct_is_letter (parse_lines U name ls)"
    using all_questions_mono [OF committed_correct_is_letter parse_lines_all_committed] .
  then show ?thesis
    unfolding parse_pdf_def
    by (rule all_questions_assign [rotated]) (simp add: correct_is_letter_def assign_question_keeps)
qed

theorem correct_is_answer_letter_witness:
  "map (map question_correct \<circ> section_questions)
     (sections (parse_pdf basic_czech (u ''t.pdf'') example_lines example_images (u ''t_images'')))
     = [[u ''A'']] \<and>
   all_questions correct_is_letter
     (parse_pdf basic_czech (u ''t.pdf'') example_lines example_images (u ''t_images''))"
proof
  show "all_questions correct_is_letter
     (parse_pdf basic_czech (u ''t.pdf'') example_lines example_images (u ''t_images''))"
    by (rule correct_is_answer_letter)
qed code_simp

text \<open>
  C3, as stated: an id that the first of two answer-key lines of a section assigns, and
  the second does not mention, still has its letter applied when the section is
  committed. It fails: the second line's map replaces the first's, and question 1 of
  the section below keeps an empty correct field.
\<close>

theorem first_key_line_lost:
  "parse_answers_line (ANSWERS_COLON @ u '' 1A'') 1 = Some (u ''A'') \<and>
   parse_answers_line (ANSWERS_COLON @ u '' 2A'') 1 = None \<and>
   map (map (\<lambda>q. (question_id q, question_correct q)) \<circ> section_questions)
     (sections (parse_pdf basic_czech (u ''t.pdf'') two_keys Map.empty (u ''t_images'')))
     = [[(1, []), (2, u ''A'')]]"
  by code_simp

text \<open>
  C3, amended: on an answer-key line all its tokens are parsed into the pending answer
  map, the last token of an id winning, and this map replaces the pending map whole:
  what the scan does from that line on does not depend on the map pending before it.
\<close>

theorem answer_key_line_replaces_map:
  assumes "answer_key_line U raw"
  shows "current_answers (fst (step U st raw p rest))
           = map_of (rev (map token_entry (findall_answers (strip raw)))) \<and>
         scan U (st\<lparr> current_answers := m \<rparr>) ((raw, p) # rest) = scan U st ((raw, p) # rest)"
  using assms
  by (simp add: step_answer_key_line answers_line_forgets)
     (simp add: answers_line_def parse_answers_line_map_of)

theorem answer_key_line_replaces_map_witness:
  "answer_key_line basic_czech (ANSWERS_COLON @ u '' 2A, 2B'') \<and>
   current_answers (fst (step basic_czech initial_state (ANSWERS_COLON @ u '' 2A, 2B'') 1 [])) 2
     = Some (u ''B'') \<and>
   scan basic_czech (initial_state\<lparr> current_answers := [1 \<mapsto> u ''A''] \<rparr>)
       [(ANSWERS_COLON @ u '' 2A, 2B'', 1)]
     = scan basic_czech initial_state [(ANSWERS_COLON @ u '' 2A, 2B'', 1)]"
proof -
  have k: "answer_key_line basic_czech (ANSWERS_COLON @ u '' 2A, 2B'')"
    by code_simp
  have "map_of (rev (map token_entry (findall_answers (strip (ANSWERS_COLON @ u '' 2A, 2B''))))) 2
      = Some (u ''B'')"
    by code_simp
  with k answer_key_line_replaces_map [OF k, of initial_state 1 "[]" "[1 \<mapsto> u ''A'']"]
  show ?thesis by simp
qed

text \<open>
  C4. Every question of every section of the produced document has at least one option,
  and so has every question the scan holds in a committed or open section at any point:
  a question enters a section's list only with an option.
\<close>

theorem committed_questions_have_options:
  "all_questions has_options (parse_pdf U name ls imgs d) \<and>
   list_all (\<lambda>s. list_all has_options (section_questions s))
     (held_sections (scan U initial_state ls))"
proof
  have "all_questions has_options (parse_lines U name ls)"
    using all_questions_mono [OF committed_has_options parse_lines_all_committed] .
  then show "all_questions has_options (parse_pdf U name ls imgs d)"
    unfolding parse_pdf_def
    by (rule all_questions_assign [rotated]) (simp add: assign_question_has_options)
  show "list_all (\<lambda>s. list_all has_options (section_questions s))
     (held_sections (scan U initial_state ls))"
    using scan_held_committed [of U ls] committed_has_options
    by (auto simp: list_all_iff)
qed

theorem committed_questions_have_options_witness:
  "map (map (length \<circ> question_options) \<circ> section_questions)
     (sections (parse_pdf basic_czech (u ''t.pdf'') example_lines example_images (u ''t_images'')))
     = [[2]] \<and>
   all_questions has_options
     (parse_pdf basic_czech (u ''t.pdf'') example_lines example_images (u ''t_images'')) \<and>
   list_all (\<lambda>s. list_all has_options (section_questions s))
     (held_sections (scan basic_czech initial_state example_lines))"
proof
  show "all_questions has_options
     (parse_pdf basic_czech (u ''t.pdf'') example_lines example_images (u ''t_images'')) \<and>
   list_all (\<lambda>s. list_all has_options (section_questions s))
     (held_sections (scan basic_czech initial_state example_lines))"
    by (rule committed_questions_have_options)
qed code_simp

text \<open>
  C5, as stated: over one binder pass no image is assigned to more than one target. It
  fails for two questions that share a page and both mention an image: each takes the
  page's first image.
\<close>

theorem one_image_for_two_questions:
  "document_images (parse_pdf basic_czech (u ''t.pdf'') shared_page_lines example_images (u ''t_images''))
     = [u ''t_images/page01_img01.png'', u ''t_images/page01_img01.png''] \<and>
   \<not> distinct (document_images
       (parse_pdf basic_czech (u ''t.pdf'') shared_page_lines example_images (u ''t_images'')))"
  by code_simp

text \<open>
  C5, amended: when the file names of each page's images are distinct, the targets of
  one question (its own image field and its options' image fields) receive pairwise
  distinct paths, for every question of the produced document.
\<close>

theorem question_images_distinct:
  assumes "\<And>p imgs. images_by_page p = Some imgs \<Longrightarrow> distinct (map filename imgs)"
  shows "all_questions images_distinct (parse_pdf U name ls images_by_page images_dir)"
  unfolding parse_pdf_def
proof (rule all_questions_assign_from)
  show "all_questions committed (parse_lines U name ls)"
    by (rule parse_lines_all_committed)
  show "images_distinct (assign_question U images_by_page images_dir sid q)"
    if "committed q" for sid q
    using assms that by (rule assign_question_distinct)
qed

theorem question_images_distinct_witness:
  "document_images (parse_pdf basic_czech (u ''t.pdf'') grid_lines grid_images (u ''t_images''))
     = [u ''t_images/page01_img01.png'', u ''t_images/page01_img02.png'',
        u ''t_images/page01_img03.png'', u ''t_images/page01_img04.png''] \<and>
   all_questions images_distinct
     (parse_pdf basic_czech (u ''t.pdf'') grid_lines grid_images (u ''t_images''))"
proof
  show "all_questions images_distinct
     (parse_pdf basic_czech (u ''t.pdf'') grid_lines grid_images (u ''t_images''))"
    by (rule question_images_distinct) (auto simp: grid_images_def u_def split: if_splits)
qed code_simp

text \<open>
  C6. For a question outside the exclusion set with exactly four options, each text
  shorter than 50 characters, at least four candidate images and an image keyword in its
  lowercased text, the binder gives the first four candidate images to the four options
  by position and changes nothing else of the question, its own image field included.
\<close>

theorem grid_images_go_to_options:
  assumes "i < length (sections quiz_data)"
    and "j < length (section_questions (sections quiz_data ! i))"
    and "q = section_questions (sections quiz_data ! i) ! j"
    and "(section_id (sections quiz_data ! i), question_id q) \<notin> EXCLUDE_IMAGE"
    and "length (question_options q) = 4"
    and "list_all (\<lambda>opt. length (option_text opt) < 50) (question_options q)"
    and "4 \<le> length (candidate_images U images_by_page q)"
    and "mentions_image U q"
  shows "section_questions (sections (assign_images_to_questions U quiz_data images_by_page images_dir) ! i) ! j
     = q\<lparr> question_options :=
           map2 (with_image images_dir) (question_options q)
             (take 4 (candidate_images U images_by_page q)) \<rparr>"
  using assms by (simp add: assign_images_nth assign_question_grid)

theorem grid_images_go_to_options_witness:
  "map option_image (question_options (section_questions (sections
       (assign_images_to_questions basic_czech (parse_lines basic_czech (u ''t.pdf'') grid_lines)
          grid_images (u ''t_images'')) ! 0) ! 0))
     = [Some (u ''t_images/page01_img01.png''), Some (u ''t_images/page01_img02.png''),
        Some (u ''t_images/page01_img03.png''), Some (u ''t_images/page01_img04.png'')] \<and>
   section_questions (sections
       (assign_images_to_questions basic_czech (parse_lines basic_czech (u ''t.pdf'') grid_lines)
          grid_images (u ''t_images'')) ! 0) ! 0
     = (section_questions (sections (parse_lines basic_czech (u ''t.pdf'') grid_lines) ! 0) ! 0)
         \<lparr> question_options :=
             map2 (with_image (u ''t_images''))
               (question_options
                  (section_questions (sections (parse_lines basic_czech (u ''t.pdf'') grid_lines) ! 0) ! 0))
               (take 4 (candidate_images basic_czech grid_images
                  (section_questions (sections (parse_lines basic_czech (u ''t.pdf'') grid_lines) ! 0) ! 0))) \<rparr>"
proof
  show "section_questions (sections
       (assign_images_to_questions basic_czech (parse_lines basic_czech (u ''t.pdf'') grid_lines)
          grid_images (u ''t_images'')) ! 0) ! 0
     = (section_questions (sections (parse_lines basic_czech (u ''t.pdf'') grid_lines) ! 0) ! 0)
         \<lparr> question_options :=
             map2 (with_image (u ''t_images''))
               (question_options
                  (section_questions (sections (parse_lines basic_czech (u ''t.pdf'') grid_lines) ! 0) ! 0))
               (take 4 (candidate_images basic_czech grid_images
                  (section_questions (sections (parse_lines basic_czech (u ''t.pdf'') grid_lines) ! 0) ! 0))) \<rparr>"
    by (rule grid_images_go_to_options [OF _ _ refl]; code_simp)
qed code_simp

text \<open>
  C7. A question whose section id and question id are in the exclusion set comes out of
  the binder as it went in: neither the question nor an option is given an image,
  whatever its text and the images of its page and the next.
\<close>

theorem excluded_question_gets_no_image:
  assumes "i < length (sections quiz_data)"
    and "j < length (section_questions (sections quiz_data ! i))"
    and "q = section_questions (sections quiz_data ! i) ! j"
    and "(section_id (sections quiz_data ! i), question_id q) \<in> EXCLUDE_IMAGE"
  shows "section_questions (sections (assign_images_to_questions U quiz_data images_by_page images_dir) ! i) ! j = q"
  using assms by (simp add: assign_images_nth assign_question_def)

theorem excluded_question_gets_no_image_witness:
  "mentions_image basic_czech
     (section_questions (sections (parse_lines basic_czech (u ''t.pdf'') excluded_lines) ! 0) ! 0) \<and>
   candidate_images basic_czech example_images
     (section_questions (sections (parse_lines basic_czech (u ''t.pdf'') excluded_lines) ! 0) ! 0)
     = [\<lparr> filename = u ''page01_img01.png'', page = 1 \<rparr>] \<and>
   section_questions (sections
       (assign_images_to_questions basic_czech (parse_lines basic_czech (u ''t.pdf'') excluded_lines)
          example_images (u ''t_images'')) ! 0) ! 0
     = section_questions (sections (parse_lines basic_czech (u ''t.pdf'') excluded_lines) ! 0) ! 0"
proof (intro conjI)
  show "section_questions (sections
       (assign_images_to_questions basic_czech (parse_lines basic_czech (u ''t.pdf'') excluded_lines)
          example_images (u ''t_images'')) ! 0) ! 0
     = section_questions (sections (parse_lines basic_czech (u ''t.pdf'') excluded_lines) ! 0) ! 0"
    by (rule excluded_question_gets_no_image [OF _ _ refl]; code_simp)
qed code_simp+

text \<open>
  C8. The serialized question has the keys id, text, options and correct always, image
  and date exactly when the field is present (not \<open>None\<close> and not empty), in this
  order and with the fields' values; the serialized option has label and text always and
  image exactly when present. Every question of the document is serialized so, inside its
  section's questions list.
\<close>

theorem serializer_keys:
  "keys (question_dict q)
     = [''id'', ''text'', ''options'', ''correct'']
       @ (if present (question_image q) then [''image''] else [])
       @ (if present (question_date q) then [''date''] else []) \<and>
   subscript (question_dict q) ''id'' = Some (JInt (question_id q)) \<and>
   subscript (question_dict q) ''text'' = Some (JStr (question_text q)) \<and>
   subscript (question_dict q) ''options'' = Some (JList (map option_dict (question_options q))) \<and>
   subscript (question_dict q) ''correct'' = Some (JStr (question_correct q)) \<and>
   subscript (question_dict q) ''image''
     = (if present (question_image q) then map_option JStr (question_image q) else None) \<and>
   subscript (question_dict q) ''date''
     = (if present (question_date q) then map_option JStr (question_date q) else None) \<and>
   keys (option_dict opt)
     = [''label'', ''text''] @ (if present (option_image opt) then [''image''] else []) \<and>
   subscript (option_dict opt) ''label'' = Some (JStr (option_label opt)) \<and>
   subscript (option_dict opt) ''text'' = Some (JStr (option_text opt)) \<and>
   subscript (option_dict opt) ''image''
     = (if present (option_image opt) then map_option JStr (option_image opt) else None) \<and>
   subscript (convert_to_dict quiz_data) ''sections''
     = Some (JList (map section_dict (sections quiz_data))) \<and>
   subscript (section_dict s) ''questions''
     = Some (JList (map question_dict (section_questions s)))"
  by (simp add: keys_dicts subscript_option_dict subscript_question_dict subscript_section_dict)
     (simp add: subscript_def convert_to_dict_def)

theorem serializer_keys_witness:
  "keys (question_dict \<lparr> question_id = 1, question_text = u ''Kdo?'',
        question_options = [], question_correct = [], question_image = Some [],
        question_date = Some (u ''1. 1. 2024''), question_page = 1 \<rparr>)
     = [''id'', ''text'', ''options'', ''correct'', ''date''] \<and>
   keys (option_dict \<lparr> option_label = u ''A'', option_text = u ''x'', option_image = Some (u ''d/a.png'') \<rparr>)
     = [''label'', ''text'', ''image'']"
  using serializer_keys [of "\<lparr> question_id = 1, question_text = u ''Kdo?'',
        question_options = [], question_correct = [], question_image = Some [],
        question_date = Some (u ''1. 1. 2024''), question_page = 1 \<rparr>"
      "\<lparr> option_label = u ''A'', option_text = u ''x'', option_image = Some (u ''d/a.png'') \<rparr>"]
  by (simp add: present_def u_def)



text \<open>
  C10. Text normalization is idempotent, and every question text and option text of the
  produced document has no whitespace at either end and no two whitespace characters in
  a row.
\<close>

theorem clean_text_idempotent_texts_normalized:
  "clean_text (clean_text s) = clean_text s \<and>
   all_questions texts_normalized (parse_pdf U name ls imgs d)"
proof
  show "clean_text (clean_text s) = clean_text s" by (rule clean_text_idem)
  have "all_questions texts_normalized (parse_lines U name ls)"
    using all_questions_mono [OF committed_texts_normalized parse_lines_all_committed] .
  then show "all_questions texts_normalized (parse_pdf U name ls imgs d)"
    unfolding parse_pdf_def
    by (rule all_questions_assign [rotated]) (simp add: texts_normalized_def assign_question_keeps)
qed

theorem clean_text_idempotent_texts_normalized_witness:
  "clean_text (u ''  Kdo   je  '') = u ''Kdo je'' \<and>
   map (map question_text \<circ> section_questions)
     (sections (parse_pdf basic_czech (u ''t.pdf'') example_lines example_images (u ''t_images'')))
     = [[u ''Kdo je na bankovce?'']] \<and>
   clean_text (clean_text (u ''  Kdo   je  '')) = clean_text (u ''  Kdo   je  '') \<and>
   all_questions texts_normalized
     (parse_pdf basic_czech (u ''t.pdf'') example_lines example_images (u ''t_images''))"
proof (intro conjI)
  show "clean_text (clean_text (u ''  Kdo   je  '')) = clean_text (u ''  Kdo   je  '')"
    using clean_text_idempotent_texts_normalized [of "u ''  Kdo   je  ''"] by blast
  show "all_questions texts_normalized
     (parse_pdf basic_czech (u ''t.pdf'') example_lines example_images (u ''t_images''))"
    using clean_text_idempotent_texts_normalized by blast
qed code_simp+

end
